theory Spec2Isabelle
  imports Complex_Main "HOL-Library.AList" "HOL-Library.Char_ord"
    "HOL-Library.List_Lexorder" "HOL-Library.Product_Lexorder"
begin

section \<open>Data model\<close>

text \<open>
  The matcher \<^verbatim>\<open>find_matching_mofs(df, inputs)\<close> of \<^verbatim>\<open>mof_matcher.py\<close> works on a
  pandas DataFrame and a Python dict. A cell of the frame is a number, a text, the float
  NaN or Python's None. Numbers are exact rationals here: the rounding of binary floating
  point, infinities and a NaN criterion are outside the embedding. Strings are byte
  lists; the non-ASCII characters of the column names are written as their UTF-8 bytes.
\<close>

datatype cell = Num rat | Str string | NaN | PyNone

text \<open>The dtype of a column: numeric (int64, float64) or object.\<close>

datatype dtype = DNum | DObj

text \<open>
  A value of the \<^verbatim>\<open>inputs\<close> dict (\<^verbatim>\<open>Dict[str, Any]\<close>): None, a str, or a number.
  After normalisation (lines 57-66) only str and numbers are left, hence the second type.
\<close>

datatype raw = RNone | RStr string | RNum rat

datatype crit = CStr string | CNum rat

text \<open>
  The exceptions that leave the function: the KeyError of line 74 with the list of
  missing columns, the KeyError of a column lookup by a name that the frame does not have
  (\<^verbatim>\<open>groupby("MOF")\<close>, \<^verbatim>\<open>group["Gas uptake (mmol/g)"]\<close>, \<^verbatim>\<open>group.loc[idx_max, keep_cols]\<close>),
  the failure of \<^verbatim>\<open>idxmax\<close> on a column without any number (an exception in pandas 3, a
  NaN label that \<^verbatim>\<open>loc\<close> then rejects before), and the IndexError of \<^verbatim>\<open>iloc[0]\<close>.
\<close>

datatype error = MissingColumns "string list" | KeyError "string list" | IdxmaxAllNA | IndexError

type_synonym row = "string \<Rightarrow> cell"

text \<open>
  A DataFrame with the default index: its column names in order, the dtype of each
  column, and its rows in order. A row gives the cell under each column name; what it
  gives under a name outside \<open>columns\<close> is never read.
\<close>

record dataframe =
  columns :: "string list"
  dtypes :: "string \<Rightarrow> dtype"
  rows :: "row list"

text \<open>A Series indexed by column names (a row taken out of a frame, or a dict of cells).\<close>

type_synonym series = "string \<Rightarrow> cell option"

text \<open>
  What the pandas library does with text and numbers is a parameter of the embedding:
  \<open>str_of\<close> is the text that \<^verbatim>\<open>astype(str)\<close> gives for a cell that is not a str already
  (\<open>None\<close> where the value stays missing, as pandas 3 does for NaN; pandas 2 gives
  \<^verbatim>\<open>'nan'\<close>), and \<open>parse_num\<close> is the number that \<^verbatim>\<open>to_numeric\<close> reads from a text
  (\<open>None\<close> where the text is not a number).
\<close>

record pandas =
  str_of :: "cell \<Rightarrow> string option"
  parse_num :: "string \<Rightarrow> rat option"

text \<open>
  The objects that the caller and the function share live in a store: the caller's
  frame \<^verbatim>\<open>df\<close> and the working copy \<^verbatim>\<open>df_work\<close> are addresses. \<open>next_ref\<close> is the first
  address not yet allocated.
\<close>

type_synonym ref = nat

record store =
  objs :: "ref \<Rightarrow> dataframe"
  next_ref :: ref

section \<open>Constants of the module\<close>

definition MOF :: string where
  "MOF = ''MOF''"

definition GAS_UPTAKE :: string where
  "GAS_UPTAKE = ''Gas uptake (mmol/g)''"

definition GAS_TEMPERATURE :: string where
  "GAS_TEMPERATURE = ''Gas Temperature ('' @ [CHR 0xC2, CHR 0xB0] @ ''C)''"

definition GAS_PRESSURE :: string where
  "GAS_PRESSURE = ''Gas Pressure (bar)''"

definition MSA :: string where
  "MSA = ''MSA (m'' @ [CHR 0xC2, CHR 0xB2] @ ''/g)''"

definition VSA :: string where
  "VSA = ''VSA (m'' @ [CHR 0xC2, CHR 0xB2] @ ''/cm'' @ [CHR 0xC2, CHR 0xB3] @ '')''"

definition PLD :: string where
  "PLD = ''PLD ('' @ [CHR 0xC3, CHR 0x85] @ '')''"

definition LCD :: string where
  "LCD = ''LCD ('' @ [CHR 0xC3, CHR 0x85] @ '')''"

definition OUTPUT_COLS :: "string list" where
  "OUTPUT_COLS =
    [MOF, ''KH (mmol/bar.g)'', ''W 0.1 (mmol/g)'', ''W 0.2 (mmol/g)'', ''W 0.3 (mmol/g)'',
     ''W 0.4 (mmol/g)'', ''W 0.5 (mmol/g)'', ''W 0.6 (mmol/g)'', ''W 0.7 (mmol/g)'',
     ''W 0.8 (mmol/g)'', ''W 0.9 (mmol/g)'',
     ''N2'', ''CO2'', ''CH4'', GAS_TEMPERATURE, GAS_PRESSURE,
     GAS_UPTAKE, ''Void Fraction'', MSA, VSA,
     PLD, LCD]"

text \<open>\<^verbatim>\<open>keep_cols\<close> of line 109.\<close>

definition keep_cols :: "string list" where
  "keep_cols = [''N2'', ''CO2'', ''CH4'', GAS_TEMPERATURE, GAS_PRESSURE, GAS_UPTAKE]"

section \<open>Python strings\<close>

text \<open>
  \<^verbatim>\<open>str.strip()\<close> removes the white space at both ends and \<^verbatim>\<open>str.lower()\<close> folds the
  case. Both are written for ASCII: the white space characters are TAB to CR, FS to US
  and the blank, and the letters A to Z are folded.
\<close>

definition is_space :: "char \<Rightarrow> bool" where
  "is_space c =
    (let n = (of_char c :: nat) in (9 \<le> n \<and> n \<le> 13) \<or> (28 \<le> n \<and> n \<le> 32))"

definition strip :: "string \<Rightarrow> string" where
  "strip s = rev (dropWhile is_space (rev (dropWhile is_space s)))"

text \<open>An upper-case letter and its lower-case letter differ in bit 5 only.\<close>

fun lower_char :: "char \<Rightarrow> char" where
  "lower_char (Char b0 b1 b2 b3 b4 b5 b6 b7) =
    (let n = (of_char (Char b0 b1 b2 b3 b4 b5 b6 b7) :: nat)
     in if 65 \<le> n \<and> n \<le> 90 then Char b0 b1 b2 b3 b4 True b6 b7
        else Char b0 b1 b2 b3 b4 b5 b6 b7)"

definition lower :: "string \<Rightarrow> string" where
  "lower s = map lower_char s"

section \<open>The pandas operations that the function calls\<close>

text \<open>\<^verbatim>\<open>df.empty\<close>: an axis of length 0.\<close>

definition df_empty :: "dataframe \<Rightarrow> bool" where
  "df_empty df = (rows df = [] \<or> columns df = [])"

text \<open>\<^verbatim>\<open>df[col]\<close>: the cells of a column, in row order.\<close>

definition getitem :: "dataframe \<Rightarrow> string \<Rightarrow> cell list" where
  "getitem df col = map (\<lambda>r. r col) (rows df)"

text \<open>
  \<^verbatim>\<open>df[col] = values\<close>: the column is replaced cell by cell and takes the dtype of the
  values; a new name is appended to the columns.
\<close>

definition setitem :: "dataframe \<Rightarrow> string \<Rightarrow> dtype \<Rightarrow> cell list \<Rightarrow> dataframe" where
  "setitem df col dt vals =
    df\<lparr>columns := (if col \<in> set (columns df) then columns df else columns df @ [col]),
       dtypes := (dtypes df)(col := dt),
       rows := map (\<lambda>(r, v). r(col := v)) (zip (rows df) vals)\<rparr>"

text \<open>\<^verbatim>\<open>.astype(str)\<close>, \<^verbatim>\<open>.str.strip()\<close>, \<^verbatim>\<open>.str.lower()\<close> and \<^verbatim>\<open>== text\<close> on a column.\<close>

fun astype_str1 :: "pandas \<Rightarrow> cell \<Rightarrow> cell" where
  "astype_str1 L (Str s) = Str s"
| "astype_str1 L c = (case str_of L c of Some s \<Rightarrow> Str s | None \<Rightarrow> NaN)"

definition astype_str :: "pandas \<Rightarrow> cell list \<Rightarrow> cell list" where
  "astype_str L cs = map (astype_str1 L) cs"

fun str_strip1 :: "cell \<Rightarrow> cell" where
  "str_strip1 (Str s) = Str (strip s)"
| "str_strip1 c = NaN"

definition str_strip :: "cell list \<Rightarrow> cell list" where
  "str_strip cs = map str_strip1 cs"

fun str_lower1 :: "cell \<Rightarrow> cell" where
  "str_lower1 (Str s) = Str (lower s)"
| "str_lower1 c = NaN"

definition str_lower :: "cell list \<Rightarrow> cell list" where
  "str_lower cs = map str_lower1 cs"

definition eq_text :: "cell list \<Rightarrow> string \<Rightarrow> bool list" where
  "eq_text cs v = map (\<lambda>c. c = Str v) cs"

text \<open>\<^verbatim>\<open>pd.to_numeric(column, errors="coerce")\<close> and \<^verbatim>\<open>.between(lower, upper)\<close>.\<close>

fun to_numeric1 :: "pandas \<Rightarrow> cell \<Rightarrow> cell" where
  "to_numeric1 L (Num x) = Num x"
| "to_numeric1 L (Str s) = (case parse_num L s of Some x \<Rightarrow> Num x | None \<Rightarrow> NaN)"
| "to_numeric1 L c = NaN"

definition to_numeric :: "pandas \<Rightarrow> cell list \<Rightarrow> cell list" where
  "to_numeric L cs = map (to_numeric1 L) cs"

fun between1 :: "rat \<Rightarrow> rat \<Rightarrow> cell \<Rightarrow> bool" where
  "between1 lo hi (Num x) = (lo \<le> x \<and> x \<le> hi)"
| "between1 lo hi c = False"

definition between :: "rat \<Rightarrow> rat \<Rightarrow> cell list \<Rightarrow> bool list" where
  "between lo hi cs = map (between1 lo hi) cs"

text \<open>\<^verbatim>\<open>mask &= other\<close> and \<^verbatim>\<open>df[mask]\<close>.\<close>

definition mask_and :: "bool list \<Rightarrow> bool list \<Rightarrow> bool list" where
  "mask_and m1 m2 = map (\<lambda>(a, b). a \<and> b) (zip m1 m2)"

definition getitem_mask :: "dataframe \<Rightarrow> bool list \<Rightarrow> dataframe" where
  "getitem_mask df m = df\<lparr>rows := map snd (filter fst (zip m (rows df)))\<rparr>"

text \<open>\<^verbatim>\<open>pd.DataFrame(columns=cols)\<close>: no rows, every column of dtype object.\<close>

definition empty_frame :: "string list \<Rightarrow> dataframe" where
  "empty_frame cols = \<lparr>columns = cols, dtypes = (\<lambda>c. DObj), rows = []\<rparr>"

text \<open>\<^verbatim>\<open>df.copy()\<close>: a new object with the same content.\<close>

definition copy :: "store \<Rightarrow> ref \<Rightarrow> ref \<times> store" where
  "copy s r =
    (next_ref s, s\<lparr>objs := (objs s)(next_ref s := objs s r), next_ref := Suc (next_ref s)\<rparr>)"

text \<open>
  \<^verbatim>\<open>matched.groupby("MOF")\<close> with the defaults \<^verbatim>\<open>sort=True\<close> and \<^verbatim>\<open>dropna=True\<close>: the
  rows with a missing key are dropped, the keys are iterated in ascending order (numbers
  before texts, texts by code point) and each group holds the rows with its key, in the
  order of the frame.
\<close>

fun notna :: "cell \<Rightarrow> bool" where
  "notna NaN = False"
| "notna PyNone = False"
| "notna c = True"

fun key_of :: "cell \<Rightarrow> nat \<times> rat \<times> string" where
  "key_of (Num x) = (0, x, [])"
| "key_of (Str s) = (1, 0, s)"
| "key_of c = (2, 0, [])"

definition group_keys :: "dataframe \<Rightarrow> string \<Rightarrow> cell list" where
  "group_keys df col = sort_key key_of (remdups (filter notna (getitem df col)))"

definition groupby :: "dataframe \<Rightarrow> string \<Rightarrow> (cell \<times> dataframe) list" where
  "groupby df col =
    map (\<lambda>k. (k, df\<lparr>rows := filter (\<lambda>r. r col = k) (rows df)\<rparr>)) (group_keys df col)"

text \<open>
  \<^verbatim>\<open>Series.idxmax()\<close>: the position of the first occurrence of the largest number, the
  missing values skipped; no position when there is no number at all.
\<close>

fun idxmax_from :: "nat \<Rightarrow> (nat \<times> rat) option \<Rightarrow> cell list \<Rightarrow> (nat \<times> rat) option" where
  "idxmax_from i best [] = best"
| "idxmax_from i best (Num x # cs) =
    idxmax_from (Suc i)
      (case best of None \<Rightarrow> Some (i, x)
       | Some (j, y) \<Rightarrow> if y < x then Some (i, x) else Some (j, y)) cs"
| "idxmax_from i best (c # cs) = idxmax_from (Suc i) best cs"

definition idxmax :: "cell list \<Rightarrow> nat option" where
  "idxmax cs = map_option fst (idxmax_from 0 None cs)"

text \<open>\<^verbatim>\<open>group.loc[label, cols]\<close> for a label of the group and columns of the group.\<close>

definition loc :: "dataframe \<Rightarrow> nat \<Rightarrow> string list \<Rightarrow> series" where
  "loc df i cols = (\<lambda>c. if c \<in> set cols then Some ((rows df ! i) c) else None)"

text \<open>
  \<^verbatim>\<open>group[cols].mean(numeric_only=True)\<close>: a Series over the columns of numeric dtype
  among \<open>cols\<close>; each entry is the mean of the numbers of the column, NaN when it has none.
\<close>

fun nums :: "cell list \<Rightarrow> rat list" where
  "nums [] = []"
| "nums (Num x # cs) = x # nums cs"
| "nums (c # cs) = nums cs"

definition mean_cells :: "cell list \<Rightarrow> cell" where
  "mean_cells cs =
    (if nums cs = [] then NaN else Num (sum_list (nums cs) / of_nat (length (nums cs))))"

definition mean_numeric_only :: "dataframe \<Rightarrow> string list \<Rightarrow> series" where
  "mean_numeric_only df cols =
    (\<lambda>c. if c \<in> set cols \<and> dtypes df c = DNum then Some (mean_cells (getitem df c)) else None)"

text \<open>\<^verbatim>\<open>series.reindex(cols)\<close>: the entries under \<open>cols\<close>, NaN where the series has none.\<close>

definition reindex :: "series \<Rightarrow> string list \<Rightarrow> series" where
  "reindex sr cols =
    (\<lambda>c. if c \<in> set cols then Some (case sr c of Some v \<Rightarrow> v | None \<Rightarrow> NaN) else None)"

text \<open>
  \<^verbatim>\<open>pd.DataFrame(list_of_rows, columns=cols)\<close>: one row per element, the cells aligned by
  column name, NaN where an element has no entry. The dtype of a column is inferred from
  its cells. The elements are the Series of the groups of several records and the dicts
  of the groups of one record; the constructor is taken to accept every such list.
\<close>

fun numeric_cell :: "cell \<Rightarrow> bool" where
  "numeric_cell (Num x) = True"
| "numeric_cell NaN = True"
| "numeric_cell c = False"

definition DataFrame :: "series list \<Rightarrow> string list \<Rightarrow> dataframe" where
  "DataFrame srs cols =
    \<lparr>columns = cols,
     dtypes = (\<lambda>c. if srs \<noteq> [] \<and> list_all (\<lambda>sr. case sr c of Some v \<Rightarrow> numeric_cell v | None \<Rightarrow> True) srs
                    then DNum else DObj),
     rows = map (\<lambda>sr c. case sr c of Some v \<Rightarrow> v | None \<Rightarrow> NaN) srs\<rparr>"

section \<open>The matcher\<close>

text \<open>
  Lines 56-66: the entries with a value that is None or a blank str are skipped, the
  others are stored under the stripped key. A Python dict keeps the position of a key
  that is assigned again, as \<open>AList.update\<close> does.
\<close>

fun normalise :: "(string \<times> raw) list \<Rightarrow> (string \<times> crit) list \<Rightarrow> (string \<times> crit) list" where
  "normalise [] provided = provided"
| "normalise ((k, RNone) # kvs) provided = normalise kvs provided"
| "normalise ((k, RStr v) # kvs) provided =
    (if strip v = [] then normalise kvs provided
     else normalise kvs (AList.update (strip k) (CStr v) provided))"
| "normalise ((k, RNum v) # kvs) provided =
    normalise kvs (AList.update (strip k) (CNum v) provided)"

definition store_set :: "store \<Rightarrow> ref \<Rightarrow> dataframe \<Rightarrow> store" where
  "store_set s r df = s\<lparr>objs := (objs s)(r := df)\<rparr>"

text \<open>
  Lines 81-89: the loop over the criteria. Each pass overwrites one column of the object
  at \<open>w\<close> (\<^verbatim>\<open>df_work\<close>) with its converted cells and narrows the mask.
\<close>

fun apply_criteria ::
  "pandas \<Rightarrow> ref \<Rightarrow> (string \<times> crit) list \<Rightarrow> bool list \<Rightarrow> store \<Rightarrow> bool list \<times> store" where
  "apply_criteria L w [] m s = (m, s)"
| "apply_criteria L w ((col, CStr val) # ps) m s =
    (let s1 = store_set s w (setitem (objs s w) col DObj
                (str_lower (str_strip (astype_str L (getitem (objs s w) col)))));
         m1 = mask_and m (eq_text (getitem (objs s1 w) col) (lower (strip val)))
     in apply_criteria L w ps m1 s1)"
| "apply_criteria L w ((col, CNum val) # ps) m s =
    (let s1 = store_set s w (setitem (objs s w) col DNum
                (to_numeric L (getitem (objs s w) col)));
         lo = val * (98 / 100);
         hi = val * (102 / 100);
         m1 = mask_and m (between lo hi (getitem (objs s1 w) col))
     in apply_criteria L w ps m1 s1)"

text \<open>Lines 99-138: the body of the loop over the groups, one output row per group.\<close>

definition aggregate_group :: "pandas \<Rightarrow> cell \<Rightarrow> dataframe \<Rightarrow> error + series" where
  "aggregate_group L mof_name group0 =
    (let group = (if GAS_UPTAKE \<in> set (columns group0)
                  then setitem group0 GAS_UPTAKE DNum (to_numeric L (getitem group0 GAS_UPTAKE))
                  else group0)
     in if length (rows group) > 1 then
          (if GAS_UPTAKE \<notin> set (columns group) then Inl (KeyError [GAS_UPTAKE])
           else case idxmax (getitem group GAS_UPTAKE) of
             None \<Rightarrow> Inl IdxmaxAllNA
           | Some idx_max \<Rightarrow>
               (if filter (\<lambda>c. c \<notin> set (columns group)) keep_cols \<noteq> []
                then Inl (KeyError (filter (\<lambda>c. c \<notin> set (columns group)) keep_cols))
                else
                  let top_row = loc group idx_max keep_cols;
                      avg_cols = filter (\<lambda>c. c \<notin> set (keep_cols @ [MOF])) OUTPUT_COLS;
                      avg_cols_existing = filter (\<lambda>c. c \<in> set (columns group)) avg_cols;
                      avg_row = mean_numeric_only group avg_cols_existing;
                      avg_row1 = avg_row(MOF \<mapsto> mof_name);
                      avg_row2 = fold (\<lambda>c a. if top_row c \<noteq> None then a(c := top_row c) else a)
                                   keep_cols avg_row1
                  in Inr (reindex avg_row2 OUTPUT_COLS)))
        else
          (case rows group of
             [] \<Rightarrow> Inl IndexError
           | row # rest \<Rightarrow>
               Inr (\<lambda>c. if c \<in> set OUTPUT_COLS
                        then Some (if c \<in> set (columns group) then row c else PyNone)
                        else None)))"

text \<open>Lines 96-98 and 132, 138: the loop appends the row of each group; an exception ends it.\<close>

fun group_loop :: "pandas \<Rightarrow> (cell \<times> dataframe) list \<Rightarrow> series list \<Rightarrow> error + series list" where
  "group_loop L [] grouped_rows = Inr grouped_rows"
| "group_loop L ((mof_name, grp) # gs) grouped_rows =
    (case aggregate_group L mof_name grp of
       Inl e \<Rightarrow> Inl e
     | Inr r \<Rightarrow> group_loop L gs (grouped_rows @ [r]))"

text \<open>Lines 96-141.\<close>

definition aggregate :: "pandas \<Rightarrow> dataframe \<Rightarrow> error + dataframe" where
  "aggregate L matched =
    (if MOF \<notin> set (columns matched) then Inl (KeyError [MOF])
     else case group_loop L (groupby matched MOF) [] of
       Inl e \<Rightarrow> Inl e
     | Inr grouped_rows \<Rightarrow> Inr (DataFrame grouped_rows OUTPUT_COLS))"

text \<open>
  Lines 76-91: the mask starts all true, the criteria are applied to a copy of the
  caller's frame, and \<^verbatim>\<open>matched\<close> is the rows of the copy that the mask keeps.
\<close>

definition filter_records ::
  "pandas \<Rightarrow> store \<Rightarrow> ref \<Rightarrow> (string \<times> crit) list \<Rightarrow> dataframe \<times> store" where
  "filter_records L s df provided =
    (let m = replicate (length (rows (objs s df))) True;
         (df_work, s1) = copy s df;
         (m1, s2) = apply_criteria L df_work provided m s1
     in (getitem_mask (objs s2 df_work) m1, s2))"

text \<open>
  \<^verbatim>\<open>find_matching_mofs(df, inputs)\<close>: \<open>df\<close> is the address of the caller's frame; the
  result is the returned table or the exception, and the store afterwards.
\<close>

definition find_matching_mofs ::
  "pandas \<Rightarrow> store \<Rightarrow> ref \<Rightarrow> (string \<times> raw) list \<Rightarrow> (error + dataframe) \<times> store" where
  "find_matching_mofs L s df inputs =
    (if df_empty (objs s df) then (Inr (empty_frame OUTPUT_COLS), s)
     else
       let provided = normalise inputs [] in
       if provided = [] then (Inr (empty_frame OUTPUT_COLS), s)
       else
         let missing_cols = filter (\<lambda>k. k \<notin> set (columns (objs s df))) (map fst provided) in
         if missing_cols \<noteq> [] then (Inl (MissingColumns missing_cols), s)
         else
           let (matched, s2) = filter_records L s df provided
           in if df_empty matched then (Inr (empty_frame OUTPUT_COLS), s2)
              else (aggregate L matched, s2))"

section \<open>Notions of the specification\<close>

text \<open>A criteria value that is not a criterion: None, or a str that is empty or blank.\<close>

fun blank :: "raw \<Rightarrow> bool" where
  "blank RNone = True"
| "blank (RStr v) = (strip v = [])"
| "blank (RNum v) = False"

text \<open>
  The predicate of one criterion on one record, in the words of the specification. Text:
  the value of the record, rendered as text, trimmed and case-folded, equals the
  criterion trimmed and case-folded. Number: the value coerces to a number that lies in
  the inclusive band from \<open>0.98 v\<close> to \<open>1.02 v\<close>.
\<close>

fun satisfies :: "pandas \<Rightarrow> string \<times> crit \<Rightarrow> row \<Rightarrow> bool" where
  "satisfies L (col, CStr v) r =
    (case astype_str1 L (r col) of
       Str t \<Rightarrow> lower (strip t) = lower (strip v)
     | _ \<Rightarrow> False)"
| "satisfies L (col, CNum v) r =
    (case to_numeric1 L (r col) of
       Num x \<Rightarrow> v * (98 / 100) \<le> x \<and> x \<le> v * (102 / 100)
     | _ \<Rightarrow> False)"

text \<open>
  The matching subset in the words of the specification: the records of the dataset that
  satisfy the predicate of every criterion, in the order of the dataset.
\<close>

definition matching_subset :: "pandas \<Rightarrow> dataframe \<Rightarrow> (string \<times> crit) list \<Rightarrow> dataframe" where
  "matching_subset L df provided =
    df\<lparr>rows := filter (\<lambda>r. list_all (\<lambda>p. satisfies L p r) provided) (rows df)\<rparr>"

text \<open>
  The record of the working copy that stands for a record of the dataset: the column of
  each criterion holds the converted cell.
\<close>

fun conv :: "pandas \<Rightarrow> crit \<Rightarrow> cell \<Rightarrow> cell" where
  "conv L (CStr v) c = str_lower1 (str_strip1 (astype_str1 L c))"
| "conv L (CNum v) c = to_numeric1 L c"

definition coerce_row :: "pandas \<Rightarrow> (string \<times> crit) list \<Rightarrow> row \<Rightarrow> row" where
  "coerce_row L provided r = fold (\<lambda>(col, cr) r'. r'(col := conv L cr (r' col))) provided r"

text \<open>A column of the returned table, when a table is returned.\<close>

fun result_column :: "error + dataframe \<Rightarrow> string \<Rightarrow> cell list option" where
  "result_column (Inl e) col = None"
| "result_column (Inr t) col = Some (getitem t col)"

section \<open>Example data\<close>

text \<open>
  A library in which a missing value stays missing under \<^verbatim>\<open>astype(str)\<close>; the examples
  hold numbers in the cells read as numbers and texts in the cells read as text, so the
  rendering of a number and the parsing of a text play no part in them.
\<close>

definition lib :: pandas where
  "lib = \<lparr>str_of = (\<lambda>c. None), parse_num = (\<lambda>t. None)\<rparr>"

definition example_cols :: "string list" where
  "example_cols =
    [MOF, ''N2'', ''CO2'', ''CH4'', GAS_TEMPERATURE, GAS_PRESSURE, GAS_UPTAKE, ''Void Fraction'']"

definition example_row :: "cell \<Rightarrow> rat \<Rightarrow> cell \<Rightarrow> row" where
  "example_row name uptake void =
    (\<lambda>c. NaN)(MOF := name, ''N2'' := Num 1, ''CO2'' := Num 0, ''CH4'' := Num 0,
       GAS_TEMPERATURE := Num 25, GAS_PRESSURE := Num uptake, GAS_UPTAKE := Num uptake,
       ''Void Fraction'' := void)"

text \<open>
  Two records of the entity A and one of B; the void fraction of B is a text, so the
  column has dtype object.
\<close>

definition example_df :: dataframe where
  "example_df =
    \<lparr>columns = example_cols,
     dtypes = (\<lambda>c. DObj)(GAS_UPTAKE := DNum, GAS_PRESSURE := DNum, ''N2'' := DNum,
       ''CO2'' := DNum, ''CH4'' := DNum, GAS_TEMPERATURE := DNum),
     rows = [example_row (Str ''A'') 2 (Num 10), example_row (Str ''A'') 5 (Num 20),
             example_row (Str ''B'') 1 (Str ''n/a'')]\<rparr>"

text \<open>The same entity written in two ways.\<close>

definition example_df2 :: dataframe where
  "example_df2 =
    \<lparr>columns = example_cols,
     dtypes = (\<lambda>c. DObj)(GAS_UPTAKE := DNum, GAS_PRESSURE := DNum, ''N2'' := DNum,
       ''CO2'' := DNum, ''CH4'' := DNum, GAS_TEMPERATURE := DNum, ''Void Fraction'' := DNum),
     rows = [example_row (Str ''ZIF-8'') 2 (Num 10), example_row (Str ''zif-8 '') 5 (Num 20)]\<rparr>"

text \<open>A record whose entity name is written with blanks and capitals, and one without a name.\<close>

definition example_df3 :: dataframe where
  "example_df3 =
    \<lparr>columns = example_cols,
     dtypes = (\<lambda>c. DObj)(GAS_UPTAKE := DNum, GAS_PRESSURE := DNum, ''N2'' := DNum,
       ''CO2'' := DNum, ''CH4'' := DNum, GAS_TEMPERATURE := DNum, ''Void Fraction'' := DNum),
     rows = [example_row (Str '' ZIF-8 '') 2 (Num 10), example_row NaN 5 (Num 20)]\<rparr>"

definition example_store :: "dataframe \<Rightarrow> store" where
  "example_store d = \<lparr>objs = (\<lambda>r. d), next_ref = 1\<rparr>"

section \<open>Evaluation of the examples\<close>

lemmas names =
  MOF_def GAS_UPTAKE_def GAS_TEMPERATURE_def GAS_PRESSURE_def MSA_def VSA_def PLD_def LCD_def
  OUTPUT_COLS_def keep_cols_def example_cols_def

lemmas pandas_ops =
  df_empty_def getitem_def setitem_def astype_str_def str_strip_def str_lower_def eq_text_def
  to_numeric_def between_def mask_and_def getitem_mask_def copy_def store_set_def
  strip_def is_space_def lower_def group_keys_def groupby_def idxmax_def loc_def
  mean_numeric_only_def mean_cells_def reindex_def DataFrame_def

lemmas matcher =
  find_matching_mofs_def filter_records_def aggregate_def aggregate_group_def Let_def

lemmas examples =
  lib_def example_store_def example_df_def example_df2_def example_df3_def example_row_def

lemma sum_collapse: "\<not> isl x \<Longrightarrow> x = Inr (projr x)"
  by (cases x) auto

section \<open>The store: what the matcher writes\<close>

lemma apply_criteria_frame:
  "apply_criteria L w ps m s = (m', s') \<Longrightarrow>
     next_ref s' = next_ref s \<and> (\<forall>r. r \<noteq> w \<longrightarrow> objs s' r = objs s r)"
proof (induction ps arbitrary: m s)
  case Nil
  then show ?case by simp
next
  case (Cons p ps)
  obtain col cr where p: "p = (col, cr)" by (cases p)
  show ?case
  proof (cases cr)
    case (CStr v)
    with Cons.prems p Cons.IH show ?thesis
      by (fastforce simp: Let_def store_set_def)
  next
    case (CNum v)
    with Cons.prems p Cons.IH show ?thesis
      by (fastforce simp: Let_def store_set_def)
  qed
qed

lemma filter_records_frame:
  assumes "filter_records L s df provided = (matched, s')" and "r < next_ref s"
  shows "objs s' r = objs s r"
proof -
  obtain m1 s2 where ac:
    "apply_criteria L (next_ref s) provided (replicate (length (rows (objs s df))) True)
       (s\<lparr>objs := (objs s)(next_ref s := objs s df), next_ref := Suc (next_ref s)\<rparr>) = (m1, s2)"
    by (cases "apply_criteria L (next_ref s) provided (replicate (length (rows (objs s df))) True)
       (s\<lparr>objs := (objs s)(next_ref s := objs s df), next_ref := Suc (next_ref s)\<rparr>)") auto
  from assms(1) ac have "s' = s2"
    by (simp add: filter_records_def copy_def Let_def)
  moreover from apply_criteria_frame [OF ac] assms(2)
  have "objs s2 r = objs s r" by simp
  ultimately show ?thesis by simp
qed

section \<open>Criteria without a value\<close>

lemma normalise_blank:
  "list_all (\<lambda>kv. blank (snd kv)) inputs \<Longrightarrow> normalise inputs provided = provided"
  by (induction inputs provided rule: normalise.induct) auto

text \<open>
  C1, as the specification states it: criteria whose values are all None, empty or blank
  raise an invalid-criteria error. The function has no such error: on the dataset of the
  example, with the criteria \<^verbatim>\<open>{"MOF": None, "N2": "  "}\<close>, it returns the empty table.
\<close>

theorem blank_criteria_counterexample:
  "fst (find_matching_mofs lib (example_store example_df) 0
          [(MOF, RNone), (''N2'', RStr ''  '')]) = Inr (empty_frame OUTPUT_COLS)"
  by (simp add: find_matching_mofs_def df_empty_def examples example_cols_def
      strip_def is_space_def)

text \<open>
  C1, amended: for every dataset and every criteria mapping whose values are all None,
  empty or blank strings, the function returns the empty table with the fixed output
  columns, raises nothing and leaves the store as it was (line 68).
\<close>

theorem blank_criteria_return_empty_table:
  "list_all (\<lambda>kv. blank (snd kv)) inputs \<Longrightarrow>
     find_matching_mofs L s df inputs = (Inr (empty_frame OUTPUT_COLS), s)"
  by (simp add: find_matching_mofs_def normalise_blank)

theorem blank_criteria_return_empty_table_witness:
  "list_all (\<lambda>kv. blank (snd kv)) [(MOF, RNone), (''N2'', RStr ''  ''), (''CO2'', RStr [])]
   \<and> find_matching_mofs lib (example_store example_df) 0
        [(MOF, RNone), (''N2'', RStr ''  ''), (''CO2'', RStr [])]
      = (Inr (empty_frame OUTPUT_COLS), example_store example_df)"
proof -
  have h: "list_all (\<lambda>kv. blank (snd kv)) [(MOF, RNone), (''N2'', RStr ''  ''), (''CO2'', RStr [])]"
    by (simp add: strip_def is_space_def)
  from h blank_criteria_return_empty_table [OF h] show ?thesis by simp
qed

section \<open>Criteria on unknown columns\<close>

text \<open>
  C2: on a dataset that is not empty, when the normalised criteria name at least one
  column that the dataset does not have, the function raises one KeyError that carries
  every such name (all the keys of the normalised criteria outside the columns, in the
  order of the criteria), and returns no table.
\<close>

theorem unknown_columns_all_reported:
  assumes "\<not> df_empty (objs s df)"
    and "provided = normalise inputs []"
    and "k \<in> set (map fst provided)"
    and "k \<notin> set (columns (objs s df))"
  shows "find_matching_mofs L s df inputs =
           (Inl (MissingColumns (filter (\<lambda>c. c \<notin> set (columns (objs s df))) (map fst provided))), s)
         \<and> set (filter (\<lambda>c. c \<notin> set (columns (objs s df))) (map fst provided)) =
             {c \<in> set (map fst provided). c \<notin> set (columns (objs s df))}"
proof -
  from assms(3) have ne: "provided \<noteq> []" by auto
  from assms(3,4) have "k \<in> set (filter (\<lambda>c. c \<notin> set (columns (objs s df))) (map fst provided))"
    by simp
  then have "filter (\<lambda>c. c \<notin> set (columns (objs s df))) (map fst provided) \<noteq> []"
    by (metis empty_iff empty_set)
  with assms(1,2) ne show ?thesis
    by (simp add: find_matching_mofs_def Let_def)
qed

theorem unknown_columns_all_reported_witness:
  "\<not> df_empty (objs (example_store example_df) 0)
   \<and> find_matching_mofs lib (example_store example_df) 0
        [(''Foo'', RStr ''x''), (MOF, RStr ''A''), ('' Bar '', RNum 1)]
      = (Inl (MissingColumns [''Foo'', ''Bar'']), example_store example_df)"
proof -
  have n: "normalise [(''Foo'', RStr ''x''), (MOF, RStr ''A''), ('' Bar '', RNum 1)] []
      = [(''Foo'', CStr ''x''), (MOF, CStr ''A''), (''Bar'', CNum 1)]"
    by (simp add: strip_def is_space_def names)
  have e: "\<not> df_empty (objs (example_store example_df) 0)"
    by (simp add: df_empty_def examples names)
  have k: "''Foo'' \<in> set (map fst [(''Foo'', CStr ''x''), (MOF, CStr ''A''), (''Bar'', CNum 1)])"
    by simp
  have c: "''Foo'' \<notin> set (columns (objs (example_store example_df) 0))"
    by (simp add: examples names)
  from unknown_columns_all_reported [OF e n [symmetric] k c, of lib] e show ?thesis
    by (simp add: examples names)
qed

section \<open>The loop over the criteria\<close>

lemma satisfies_other: "col \<noteq> fst p \<Longrightarrow> satisfies L p (r(col := x)) = satisfies L p r"
  by (cases p; cases "snd p") auto

lemma satisfies_conv_str:
  "satisfies L (col, CStr v) r = (conv L (CStr v) (r col) = Str (lower (strip v)))"
  by (cases "astype_str1 L (r col)") auto

lemma satisfies_conv_num:
  "satisfies L (col, CNum v) r =
     between1 (v * (98 / 100)) (v * (102 / 100)) (conv L (CNum v) (r col))"
  by (cases "to_numeric1 L (r col)") auto

lemma rows_setitem_map:
  "rows (setitem d col dt (map g (getitem d col))) = map (\<lambda>r. r(col := g (r col))) (rows d)"
proof -
  have "map (\<lambda>(r, v). r(col := v)) (zip rs (map g (map (\<lambda>r. r col) rs)))
          = map (\<lambda>r. r(col := g (r col))) rs" for rs :: "row list"
    by (induction rs) auto
  then show ?thesis by (simp add: setitem_def getitem_def)
qed

lemma mask_and_pointwise:
  "length m = length rs \<Longrightarrow>
     mask_and m (map f (map (\<lambda>r. (r(col := g (r col))) col) rs))
       = map (\<lambda>(b, r). b \<and> f (g (r col))) (zip m rs)"
  by (induction m rs rule: list_induct2) (auto simp: mask_and_def)

lemma apply_criteria_Cons:
  assumes "length m = length (rows (objs s w))"
  shows "\<exists>d. apply_criteria L w ((col, cr) # ps) m s =
           apply_criteria L w ps
             (map (\<lambda>(b, r). b \<and> satisfies L (col, cr) r) (zip m (rows (objs s w))))
             (store_set s w d)
         \<and> rows d = map (\<lambda>r. r(col := conv L cr (r col))) (rows (objs s w))"
proof (cases cr)
  case (CStr v)
  let ?d = "setitem (objs s w) col DObj
              (str_lower (str_strip (astype_str L (getitem (objs s w) col))))"
  have conv: "str_lower (str_strip (astype_str L (getitem (objs s w) col)))
      = map (conv L (CStr v)) (getitem (objs s w) col)"
    by (simp add: str_lower_def str_strip_def astype_str_def)
  have r: "rows ?d = map (\<lambda>r. r(col := conv L cr (r col))) (rows (objs s w))"
    unfolding conv CStr by (rule rows_setitem_map)
  have m: "mask_and m (eq_text (getitem ?d col) (lower (strip v)))
      = map (\<lambda>(b, r). b \<and> satisfies L (col, cr) r) (zip m (rows (objs s w)))"
    unfolding getitem_def [of ?d] r eq_text_def CStr satisfies_conv_str
    using mask_and_pointwise [OF assms, of "\<lambda>c. c = Str (lower (strip v))" col "conv L (CStr v)"]
    by (simp add: comp_def)
  show ?thesis
    using r m CStr by (auto simp: Let_def store_set_def intro!: exI [of _ ?d])
next
  case (CNum v)
  let ?d = "setitem (objs s w) col DNum (to_numeric L (getitem (objs s w) col))"
  have conv: "to_numeric L (getitem (objs s w) col)
      = map (conv L (CNum v)) (getitem (objs s w) col)"
    by (simp add: to_numeric_def)
  have r: "rows ?d = map (\<lambda>r. r(col := conv L cr (r col))) (rows (objs s w))"
    unfolding conv CNum by (rule rows_setitem_map)
  have m: "mask_and m (between (v * (98 / 100)) (v * (102 / 100)) (getitem ?d col))
      = map (\<lambda>(b, r). b \<and> satisfies L (col, cr) r) (zip m (rows (objs s w)))"
    unfolding getitem_def [of ?d] r between_def CNum satisfies_conv_num
    using mask_and_pointwise [OF assms, of "between1 (v * (98 / 100)) (v * (102 / 100))" col "conv L (CNum v)"]
    by (simp add: comp_def)
  show ?thesis
    using r m CNum by (auto simp: Let_def store_set_def intro!: exI [of _ ?d])
qed


lemma zip_mask_step:
  "length m = length rs \<Longrightarrow> (\<And>r. Q (g r) = Q r) \<Longrightarrow>
     map (\<lambda>(b, r). b \<and> Q r) (zip (map (\<lambda>(b, r). b \<and> P r) (zip m rs)) (map g rs))
       = map (\<lambda>(b, r). b \<and> P r \<and> Q r) (zip m rs)"
  by (induction m rs rule: list_induct2) auto

lemma satisfies_all_other:
  "col \<notin> set (map fst ps) \<Longrightarrow>
     list_all (\<lambda>p. satisfies L p (r(col := x))) ps = list_all (\<lambda>p. satisfies L p r) ps"
  by (induction ps) (auto simp: satisfies_other)

lemma zip_mask_id:
  "length m = length rs \<Longrightarrow> map (\<lambda>(b, r). b) (zip m rs) = (m :: bool list)"
  by (induction m rs rule: list_induct2) auto

lemma apply_criteria_spec:
  assumes "distinct (map fst ps)" and "length m = length (rows (objs s w))"
    and "apply_criteria L w ps m s = (m', s')"
  shows "rows (objs s' w) = map (coerce_row L ps) (rows (objs s w))
         \<and> m' = map (\<lambda>(b, r). b \<and> list_all (\<lambda>p. satisfies L p r) ps) (zip m (rows (objs s w)))"
  using assms
proof (induction ps arbitrary: m s)
  case Nil
  then show ?case
    by (auto simp: coerce_row_def zip_mask_id)
next
  case (Cons p ps)
  obtain col cr where p: "p = (col, cr)" by (cases p)
  let ?rs = "rows (objs s w)"
  let ?m1 = "map (\<lambda>(b, r). b \<and> satisfies L (col, cr) r) (zip m ?rs)"
  let ?g = "\<lambda>r. r(col := conv L cr (r col))"
  from apply_criteria_Cons [OF Cons.prems(2), of L col cr ps]
  obtain d where step: "apply_criteria L w ((col, cr) # ps) m s = apply_criteria L w ps ?m1 (store_set s w d)"
    and d: "rows d = map ?g ?rs"
    by blast
  have o: "objs (store_set s w d) w = d" by (simp add: store_set_def)
  from Cons.prems(1) p have dist: "distinct (map fst ps)" and notin: "col \<notin> set (map fst ps)"
    by auto
  have len: "length ?m1 = length (rows (objs (store_set s w d) w))"
    using Cons.prems(2) by (simp add: o d)
  from Cons.prems(3) p step have run: "apply_criteria L w ps ?m1 (store_set s w d) = (m', s')"
    by simp
  from Cons.IH [OF dist len run]
  have r': "rows (objs s' w) = map (coerce_row L ps) (map ?g ?rs)"
    and m': "m' = map (\<lambda>(b, r). b \<and> list_all (\<lambda>p. satisfies L p r) ps) (zip ?m1 (map ?g ?rs))"
    by (simp_all add: o d)
  have 1: "rows (objs s' w) = map (coerce_row L (p # ps)) ?rs"
    by (simp add: r' p coerce_row_def)
  have 2: "m' = map (\<lambda>(b, r). b \<and> list_all (\<lambda>p. satisfies L p r) (p # ps)) (zip m ?rs)"
    unfolding m' using zip_mask_step [OF Cons.prems(2), of "\<lambda>r. list_all (\<lambda>p. satisfies L p r) ps" ?g
        "\<lambda>r. satisfies L (col, cr) r"] satisfies_all_other [OF notin, of L]
    by (simp add: p)
  from 1 2 show ?case by simp
qed

lemma zip_replicate_True:
  "map (\<lambda>(b, r). b \<and> P r) (zip (replicate (length rs) True) rs) = map P rs"
  by (induction rs) auto

lemma filter_zip_map:
  "map snd (filter fst (zip (map P rs) (map g rs))) = map g (filter P rs)"
  by (induction rs) auto

lemma distinct_normalise:
  "distinct (map fst provided) \<Longrightarrow> distinct (map fst (normalise inputs provided))"
  by (induction inputs provided rule: normalise.induct) (auto simp: distinct_update)

lemma filter_records_spec:
  assumes "distinct (map fst provided)"
    and "filter_records L s df provided = (matched, s')"
  shows "rows matched = map (coerce_row L provided)
           (filter (\<lambda>r. list_all (\<lambda>p. satisfies L p r) provided) (rows (objs s df)))"
proof -
  let ?s1 = "s\<lparr>objs := (objs s)(next_ref s := objs s df), next_ref := Suc (next_ref s)\<rparr>"
  let ?m = "replicate (length (rows (objs s df))) True"
  obtain m1 s2 where ac: "apply_criteria L (next_ref s) provided ?m ?s1 = (m1, s2)"
    by (cases "apply_criteria L (next_ref s) provided ?m ?s1") auto
  have len: "length ?m = length (rows (objs ?s1 (next_ref s)))" by simp
  from apply_criteria_spec [OF assms(1) len ac]
  have r: "rows (objs s2 (next_ref s)) = map (coerce_row L provided) (rows (objs s df))"
    and m: "m1 = map (\<lambda>r. list_all (\<lambda>p. satisfies L p r) provided) (rows (objs s df))"
    by (simp_all add: zip_replicate_True)
  from assms(2) ac have "matched = getitem_mask (objs s2 (next_ref s)) m1"
    by (auto simp: filter_records_def copy_def Let_def)
  then show ?thesis
    by (simp add: getitem_mask_def r m filter_zip_map)
qed


lemma apply_criteria_single:
  assumes "apply_criteria L w [p] m s = (m', s')" and "length m = length (rows (objs s w))"
    and "i < length m"
  shows "m' ! i = (m ! i \<and> satisfies L p (rows (objs s w) ! i))"
proof -
  have "distinct (map fst [p])" by simp
  from apply_criteria_spec [OF this assms(2) assms(1)]
  have "m' = map (\<lambda>(b, r). b \<and> list_all (\<lambda>p. satisfies L p r) [p]) (zip m (rows (objs s w)))"
    by simp
  with assms(2,3) show ?thesis by simp
qed

text \<open>
  C3: one pass of the loop for a numeric criterion \<open>v\<close> (lines 86-89) keeps a record in
  the mask exactly when the cell of the record coerces to a number and that number lies
  in the inclusive band from \<open>0.98 v\<close> to \<open>1.02 v\<close>; a record whose cell does not coerce is
  dropped; and for \<open>v < 0\<close> the lower bound exceeds the upper bound and every record is
  dropped.
\<close>

theorem numeric_criterion_band:
  assumes "apply_criteria L w [(col, CNum v)] m s = (m', s')"
    and "length m = length (rows (objs s w))"
    and "i < length m"
  shows "(m' ! i \<longleftrightarrow>
            m ! i \<and> (\<exists>x. to_numeric1 L ((rows (objs s w) ! i) col) = Num x
                          \<and> v * (98 / 100) \<le> x \<and> x \<le> v * (102 / 100)))
         \<and> (to_numeric1 L ((rows (objs s w) ! i) col) = NaN \<longrightarrow> \<not> m' ! i)
         \<and> (v < 0 \<longrightarrow> v * (102 / 100) < v * (98 / 100) \<and> \<not> m' ! i)"
proof -
  let ?c = "to_numeric1 L ((rows (objs s w) ! i) col)"
  have m': "m' ! i = (m ! i \<and> satisfies L (col, CNum v) (rows (objs s w) ! i))"
    by (rule apply_criteria_single [OF assms])
  have 1: "satisfies L (col, CNum v) (rows (objs s w) ! i)
      = (\<exists>x. ?c = Num x \<and> v * (98 / 100) \<le> x \<and> x \<le> v * (102 / 100))"
    by (cases ?c) auto
  have 2: "?c = NaN \<Longrightarrow> \<not> satisfies L (col, CNum v) (rows (objs s w) ! i)"
    by simp
  have 3: "\<not> satisfies L (col, CNum v) (rows (objs s w) ! i)" if "v < 0"
    using that by (cases ?c) auto
  show ?thesis using m' 1 2 3 by auto
qed

theorem numeric_criterion_band_witness:
  "length [True, True, True] = length (rows (objs (example_store example_df) 0))
   \<and> (1::nat) < length [True, True, True]
   \<and> fst (apply_criteria lib 0 [(GAS_UPTAKE, CNum 5)] [True, True, True]
            (example_store example_df)) ! 1
   \<and> \<not> fst (apply_criteria lib 0 [(GAS_UPTAKE, CNum (- 5))] [True, True, True]
            (example_store example_df)) ! 1
   \<and> \<not> fst (apply_criteria lib 0 [(''Void Fraction'', CNum 10)] [True, True, True]
            (example_store example_df)) ! 2"
proof -
  let ?s = "example_store example_df"
  have l: "length [True, True, True] = length (rows (objs ?s 0))"
    by (simp add: examples)
  have i: "(1::nat) < length [True, True, True]" and j: "(2::nat) < length [True, True, True]"
    by simp_all
  have a: "apply_criteria lib 0 [(c, CNum v)] [True, True, True] ?s
      = (fst (apply_criteria lib 0 [(c, CNum v)] [True, True, True] ?s),
         snd (apply_criteria lib 0 [(c, CNum v)] [True, True, True] ?s))" for c v
    by simp
  have r1: "(rows (objs ?s 0) ! Suc 0) GAS_UPTAKE = Num 5"
    by (simp add: examples names)
  have r2: "(rows (objs ?s 0) ! 2) ''Void Fraction'' = Str ''n/a''"
    by (simp add: examples names)
  from numeric_criterion_band [OF a l i, of GAS_UPTAKE 5]
  have 1: "fst (apply_criteria lib 0 [(GAS_UPTAKE, CNum 5)] [True, True, True] ?s) ! 1"
    by (simp add: r1 del: apply_criteria.simps)
  from numeric_criterion_band [OF a l i, of GAS_UPTAKE "- 5"]
  have 2: "\<not> fst (apply_criteria lib 0 [(GAS_UPTAKE, CNum (- 5))] [True, True, True] ?s) ! 1"
    by (simp del: apply_criteria.simps)
  from numeric_criterion_band [OF a l j, of "''Void Fraction''" 10]
  have 3: "\<not> fst (apply_criteria lib 0 [(''Void Fraction'', CNum 10)] [True, True, True] ?s) ! 2"
    by (simp add: r2 lib_def del: apply_criteria.simps)
  from l i 1 2 3 show ?thesis by simp
qed

text \<open>
  C4: one pass of the loop for a text criterion (lines 82-84) keeps a record in the mask
  exactly when the cell of the record, rendered as text, trimmed and case-folded, equals
  the criterion trimmed and case-folded; a record whose cell is not rendered as a text is
  dropped.
\<close>

theorem text_criterion_match:
  assumes "apply_criteria L w [(col, CStr v)] m s = (m', s')"
    and "length m = length (rows (objs s w))"
    and "i < length m"
  shows "(m' ! i \<longleftrightarrow>
            m ! i \<and> (\<exists>t. astype_str1 L ((rows (objs s w) ! i) col) = Str t
                          \<and> lower (strip t) = lower (strip v)))
         \<and> ((\<forall>t. astype_str1 L ((rows (objs s w) ! i) col) \<noteq> Str t) \<longrightarrow> \<not> m' ! i)"
proof -
  let ?c = "astype_str1 L ((rows (objs s w) ! i) col)"
  have m': "m' ! i = (m ! i \<and> satisfies L (col, CStr v) (rows (objs s w) ! i))"
    by (rule apply_criteria_single [OF assms])
  have 1: "satisfies L (col, CStr v) (rows (objs s w) ! i)
      = (\<exists>t. ?c = Str t \<and> lower (strip t) = lower (strip v))"
    by (cases ?c) auto
  show ?thesis using m' 1 by auto
qed

theorem text_criterion_match_witness:
  "length [True, True] = length (rows (objs (example_store example_df3) 0))
   \<and> (0::nat) < length [True, True] \<and> (1::nat) < length [True, True]
   \<and> fst (apply_criteria lib 0 [(MOF, CStr ''zif-8'')] [True, True]
            (example_store example_df3)) ! 0
   \<and> \<not> fst (apply_criteria lib 0 [(MOF, CStr ''zif-8'')] [True, True]
            (example_store example_df3)) ! 1"
proof -
  let ?s = "example_store example_df3"
  let ?r = "apply_criteria lib 0 [(MOF, CStr ''zif-8'')] [True, True] ?s"
  have l: "length [True, True] = length (rows (objs ?s 0))"
    by (simp add: example_store_def example_df3_def)
  have i: "(0::nat) < length [True, True]" and j: "(1::nat) < length [True, True]"
    by simp_all
  have a: "?r = (fst ?r, snd ?r)"
    by simp
  have r0: "(rows (objs ?s 0) ! 0) MOF = Str '' ZIF-8 ''"
    by (simp add: example_store_def example_df3_def example_row_def names)
  have r1: "(rows (objs ?s 0) ! Suc 0) MOF = NaN"
    by (simp add: example_store_def example_df3_def example_row_def names)
  have f: "lower (strip '' ZIF-8 '') = lower (strip ''zif-8'')"
    by (simp add: lower_def strip_def is_space_def)
  from text_criterion_match [OF a l i]
  have 1: "fst ?r ! 0"
    by (simp add: r0 f del: apply_criteria.simps)
  from text_criterion_match [OF a l j]
  have 2: "\<not> fst ?r ! 1"
    by (simp add: r1 lib_def del: apply_criteria.simps)
  from l i j 1 2 show ?thesis by simp
qed

text \<open>
  C6: the matching subset holds exactly the records of the dataset that satisfy the
  predicate of every criterion, in the order of the dataset (each as it stands in the
  working copy); and when no record matches the function returns the empty table with
  the fixed output columns instead of raising.
\<close>

theorem matching_subset_is_conjunction:
  assumes "\<not> df_empty (objs s df)"
    and "provided = normalise inputs []"
    and "provided \<noteq> []"
    and "set (map fst provided) \<subseteq> set (columns (objs s df))"
    and "filter_records L s df provided = (matched, s')"
  shows "rows matched = map (coerce_row L provided)
           (rows (matching_subset L (objs s df) provided))
         \<and> (rows matched = [] \<longrightarrow>
              find_matching_mofs L s df inputs = (Inr (empty_frame OUTPUT_COLS), s'))"
proof -
  have "distinct (map fst provided)"
    unfolding assms(2) by (rule distinct_normalise) simp
  from filter_records_spec [OF this assms(5)]
  have 1: "rows matched = map (coerce_row L provided)
           (rows (matching_subset L (objs s df) provided))"
    by (simp add: matching_subset_def)
  from assms(4) have "filter (\<lambda>k. k \<notin> set (columns (objs s df))) (map fst provided) = []"
    by (auto simp: filter_empty_conv)
  with assms(1,2,3,5)
  have 2: "find_matching_mofs L s df inputs = (Inr (empty_frame OUTPUT_COLS), s')"
    if "rows matched = []"
    using that by (simp add: find_matching_mofs_def Let_def df_empty_def)
  from 1 2 show ?thesis by simp
qed

theorem matching_subset_is_conjunction_witness:
  "\<not> df_empty (objs (example_store example_df) 0)
   \<and> normalise [(MOF, RStr ''C'')] [] \<noteq> []
   \<and> set (map fst (normalise [(MOF, RStr ''C'')] [])) \<subseteq> set (columns (objs (example_store example_df) 0))
   \<and> rows (fst (filter_records lib (example_store example_df) 0 (normalise [(MOF, RStr ''C'')] []))) = []
   \<and> find_matching_mofs lib (example_store example_df) 0 [(MOF, RStr ''C'')]
       = (Inr (empty_frame OUTPUT_COLS),
          snd (filter_records lib (example_store example_df) 0 (normalise [(MOF, RStr ''C'')] [])))
   \<and> length (rows (fst (filter_records lib (example_store example_df) 0
         (normalise [(MOF, RStr '' a ''), (GAS_UPTAKE, RNum 5)] [])))) = 1"
proof -
  let ?s = "example_store example_df"
  have e: "\<not> df_empty (objs ?s 0)"
    by (simp add: df_empty_def examples names)
  have n1: "normalise [(MOF, RStr ''C'')] [] = [(MOF, CStr ''C'')]"
    by (simp add: strip_def is_space_def names)
  have n2: "normalise [(MOF, RStr '' a ''), (GAS_UPTAKE, RNum 5)] []
      = [(MOF, CStr '' a ''), (GAS_UPTAKE, CNum 5)]"
    by (simp add: strip_def is_space_def names)
  have ne1: "[(MOF, CStr ''C'')] \<noteq> []" and ne2: "[(MOF, CStr '' a ''), (GAS_UPTAKE, CNum 5)] \<noteq> []"
    by simp_all
  have c1: "set (map fst [(MOF, CStr ''C'')]) \<subseteq> set (columns (objs ?s 0))"
    by (simp add: examples names)
  have c2: "set (map fst [(MOF, CStr '' a ''), (GAS_UPTAKE, CNum 5)]) \<subseteq> set (columns (objs ?s 0))"
    by (simp add: examples names)
  have f: "filter_records lib ?s 0 ps = (fst (filter_records lib ?s 0 ps), snd (filter_records lib ?s 0 ps))" for ps
    by simp
  have rs: "rows (objs ?s 0) = [example_row (Str ''A'') 2 (Num 10), example_row (Str ''A'') 5 (Num 20),
             example_row (Str ''B'') 1 (Str ''n/a'')]"
    by (simp add: examples)
  from matching_subset_is_conjunction [OF e n1 [symmetric] ne1 c1 f]
  have 1: "rows (fst (filter_records lib ?s 0 [(MOF, CStr ''C'')])) = []"
    and 2: "find_matching_mofs lib ?s 0 [(MOF, RStr ''C'')]
       = (Inr (empty_frame OUTPUT_COLS), snd (filter_records lib ?s 0 [(MOF, CStr ''C'')]))"
    by (simp_all add: matching_subset_def rs example_row_def names lower_def strip_def is_space_def)
  from matching_subset_is_conjunction [OF e n2 [symmetric] ne2 c2 f]
  have 3: "length (rows (fst (filter_records lib ?s 0 [(MOF, CStr '' a ''), (GAS_UPTAKE, CNum 5)]))) = 1"
    by (simp add: matching_subset_def rs example_row_def names lower_def strip_def is_space_def)
  from e c1 1 2 3 show ?thesis
    unfolding n1 n2 by simp
qed

section \<open>The row of a group\<close>

lemma idxmax_from_spec:
  "idxmax_from n best cs = Some (k, x) \<Longrightarrow>
     (\<forall>i<length cs. \<forall>y. cs ! i = Num y \<longrightarrow> y \<le> x)
     \<and> (\<forall>j y. best = Some (j, y) \<longrightarrow> y \<le> x)
     \<and> (best = Some (k, x)
         \<or> (n \<le> k \<and> k - n < length cs \<and> cs ! (k - n) = Num x
             \<and> (\<forall>i<k - n. \<forall>y. cs ! i = Num y \<longrightarrow> y < x)
             \<and> (\<forall>j y. best = Some (j, y) \<longrightarrow> y < x)))"
proof (induction cs arbitrary: n best)
  case Nil
  then show ?case by simp
next
  case (Cons c cs)
  show ?case
  proof (cases "\<exists>v. c = Num v")
    case True
    then obtain v where Num: "c = Num v" by blast
    let ?b = "case best of None \<Rightarrow> Some (n, v)
       | Some (j, y) \<Rightarrow> if y < v then Some (n, v) else Some (j, y)"
    from Cons.prems Num have run: "idxmax_from (Suc n) ?b cs = Some (k, x)" by simp
    note ih = Cons.IH [OF run]
    from ih have le: "\<forall>i<length cs. \<forall>y. cs ! i = Num y \<longrightarrow> y \<le> x" by blast
    from ih have bl: "\<forall>j y. ?b = Some (j, y) \<longrightarrow> y \<le> x" by blast
    have vx: "v \<le> x"
      using bl by (cases best) (auto split: if_splits)
    have bx: "\<forall>j y. best = Some (j, y) \<longrightarrow> y \<le> x"
      using bl by (cases best) (auto split: if_splits)
    have 1: "\<forall>i<length (c # cs). \<forall>y. (c # cs) ! i = Num y \<longrightarrow> y \<le> x"
      using le vx Num by (auto simp: less_Suc_eq_0_disj)
    from ih have "?b = Some (k, x)
         \<or> (Suc n \<le> k \<and> k - Suc n < length cs \<and> cs ! (k - Suc n) = Num x
             \<and> (\<forall>i<k - Suc n. \<forall>y. cs ! i = Num y \<longrightarrow> y < x)
             \<and> (\<forall>j y. ?b = Some (j, y) \<longrightarrow> y < x))" by blast
    then have 2: "best = Some (k, x)
         \<or> (n \<le> k \<and> k - n < length (c # cs) \<and> (c # cs) ! (k - n) = Num x
             \<and> (\<forall>i<k - n. \<forall>y. (c # cs) ! i = Num y \<longrightarrow> y < x)
             \<and> (\<forall>j y. best = Some (j, y) \<longrightarrow> y < x))"
    proof
      assume b: "?b = Some (k, x)"
      show ?thesis
      proof (cases best)
        case None
        with b Num show ?thesis by auto
      next
        case (Some p)
        obtain j y where p: "p = (j, y)" by (cases p)
        with b Some Num show ?thesis by (auto split: if_splits)
      qed
    next
      assume a: "Suc n \<le> k \<and> k - Suc n < length cs \<and> cs ! (k - Suc n) = Num x
             \<and> (\<forall>i<k - Suc n. \<forall>y. cs ! i = Num y \<longrightarrow> y < x)
             \<and> (\<forall>j y. ?b = Some (j, y) \<longrightarrow> y < x)"
      then have kn: "k - n = Suc (k - Suc n)" by arith
      from a have vlt: "v < x" by (cases best) (auto split: if_splits)
      from a have blt: "\<forall>j y. best = Some (j, y) \<longrightarrow> y < x"
        by (cases best) (auto split: if_splits)
      have "\<forall>i<k - n. \<forall>y. (c # cs) ! i = Num y \<longrightarrow> y < x"
        unfolding kn using a vlt Num by (auto simp: less_Suc_eq_0_disj)
      with a kn blt show ?thesis by auto
    qed
    from 1 bx 2 show ?thesis by blast
  next
    case False
    from Cons.prems False have run: "idxmax_from (Suc n) best cs = Some (k, x)"
      by (cases c) auto
    note ih = Cons.IH [OF run]
    have 1: "\<forall>i<length (c # cs). \<forall>y. (c # cs) ! i = Num y \<longrightarrow> y \<le> x"
      using ih False by (auto simp: less_Suc_eq_0_disj)
    from ih have "best = Some (k, x)
         \<or> (Suc n \<le> k \<and> k - Suc n < length cs \<and> cs ! (k - Suc n) = Num x
             \<and> (\<forall>i<k - Suc n. \<forall>y. cs ! i = Num y \<longrightarrow> y < x)
             \<and> (\<forall>j y. best = Some (j, y) \<longrightarrow> y < x))" by blast
    then have 2: "best = Some (k, x)
         \<or> (n \<le> k \<and> k - n < length (c # cs) \<and> (c # cs) ! (k - n) = Num x
             \<and> (\<forall>i<k - n. \<forall>y. (c # cs) ! i = Num y \<longrightarrow> y < x)
             \<and> (\<forall>j y. best = Some (j, y) \<longrightarrow> y < x))"
    proof
      assume "best = Some (k, x)" then show ?thesis by simp
    next
      assume a: "Suc n \<le> k \<and> k - Suc n < length cs \<and> cs ! (k - Suc n) = Num x
             \<and> (\<forall>i<k - Suc n. \<forall>y. cs ! i = Num y \<longrightarrow> y < x)
             \<and> (\<forall>j y. best = Some (j, y) \<longrightarrow> y < x)"
      then have kn: "k - n = Suc (k - Suc n)" by arith
      have "\<forall>i<k - n. \<forall>y. (c # cs) ! i = Num y \<longrightarrow> y < x"
        unfolding kn using a False by (auto simp: less_Suc_eq_0_disj)
      with a kn show ?thesis by auto
    qed
    from 1 ih 2 show ?thesis by blast
  qed
qed

lemma idxmax_spec:
  assumes "idxmax cs = Some i"
  shows "\<exists>x. i < length cs \<and> cs ! i = Num x
           \<and> (\<forall>j<length cs. \<forall>y. cs ! j = Num y \<longrightarrow> y \<le> x)
           \<and> (\<forall>j<i. cs ! j \<noteq> Num x)"
proof -
  from assms obtain x where r: "idxmax_from 0 None cs = Some (i, x)"
    by (auto simp: idxmax_def)
  from idxmax_from_spec [OF r]
  have "i < length cs \<and> cs ! i = Num x
           \<and> (\<forall>j<length cs. \<forall>y. cs ! j = Num y \<longrightarrow> y \<le> x)
           \<and> (\<forall>j<i. \<forall>y. cs ! j = Num y \<longrightarrow> y < x)"
    by simp
  then show ?thesis by fastforce
qed

lemma fold_keep_other:
  "c \<notin> set cs \<Longrightarrow>
     fold (\<lambda>c a. if t c \<noteq> None then a(c := t c) else a) cs a c = a c"
  by (induction cs arbitrary: a) auto

lemma fold_keep_in:
  "c \<in> set cs \<Longrightarrow> t c \<noteq> None \<Longrightarrow>
     fold (\<lambda>c a. if t c \<noteq> None then a(c := t c) else a) cs a c = t c"
proof (induction cs arbitrary: a)
  case Nil
  then show ?case by simp
next
  case (Cons d cs)
  show ?case
  proof (cases "c \<in> set cs")
    case True
    with Cons show ?thesis by simp
  next
    case False
    with Cons.prems have "d = c" by simp
    with False Cons.prems(2) fold_keep_other [of c cs t "a(c := t c)"] show ?thesis by simp
  qed
qed

lemma MOF_not_kept: "MOF \<notin> set keep_cols"
  by (simp add: names)

lemma keep_cols_output: "set keep_cols \<subseteq> set OUTPUT_COLS"
  by (simp add: names)

lemma MOF_output: "MOF \<in> set OUTPUT_COLS"
  by (simp add: names)

lemma GAS_UPTAKE_kept: "GAS_UPTAKE \<in> set keep_cols"
  by (simp add: names)

lemma aggregate_group_multi:
  assumes "aggregate_group L mof_name g = Inr out" and "length (rows g) > 1"
  shows "\<exists>i x. i < length (rows g)
      \<and> to_numeric1 L ((rows g ! i) GAS_UPTAKE) = Num x
      \<and> (\<forall>j<length (rows g). \<forall>y. to_numeric1 L ((rows g ! j) GAS_UPTAKE) = Num y \<longrightarrow> y \<le> x)
      \<and> (\<forall>j<i. to_numeric1 L ((rows g ! j) GAS_UPTAKE) \<noteq> Num x)
      \<and> out GAS_UPTAKE = Some (Num x)
      \<and> (\<forall>c\<in>set keep_cols. c \<noteq> GAS_UPTAKE \<longrightarrow> out c = Some ((rows g ! i) c))
      \<and> out MOF = Some mof_name
      \<and> (\<forall>c\<in>set OUTPUT_COLS. c \<notin> set keep_cols \<longrightarrow> c \<noteq> MOF \<longrightarrow>
            out c = Some (if c \<in> set (columns g) \<and> dtypes g c = DNum
                          then mean_cells (getitem g c) else NaN))"
proof -
  let ?grp = "setitem g GAS_UPTAKE DNum (to_numeric L (getitem g GAS_UPTAKE))"
  have gu: "GAS_UPTAKE \<in> set (columns g)"
    using assms by (auto simp: aggregate_group_def Let_def split: if_splits)
  have rows_grp: "rows ?grp = map (\<lambda>r. r(GAS_UPTAKE := to_numeric1 L (r GAS_UPTAKE))) (rows g)"
    unfolding to_numeric_def by (rule rows_setitem_map)
  have cols_grp: "columns ?grp = columns g"
    using gu by (simp add: setitem_def)
  have len_grp: "length (rows ?grp) = length (rows g)"
    by (simp add: rows_grp)
  have col_gu: "getitem ?grp GAS_UPTAKE = map (\<lambda>r. to_numeric1 L (r GAS_UPTAKE)) (rows g)"
    unfolding getitem_def [of ?grp] rows_grp by (simp add: comp_def)
  obtain i where im: "idxmax (getitem ?grp GAS_UPTAKE) = Some i"
    using assms gu by (auto simp: aggregate_group_def Let_def len_grp cols_grp split: if_splits option.splits)
  have kc: "filter (\<lambda>c. c \<notin> set (columns g)) keep_cols = []"
    using assms gu im by (auto simp: aggregate_group_def Let_def len_grp cols_grp split: if_splits)
  let ?top = "loc ?grp i keep_cols"
  let ?avg = "mean_numeric_only ?grp
      (filter (\<lambda>c. c \<in> set (columns g)) (filter (\<lambda>c. c \<notin> set (keep_cols @ [MOF])) OUTPUT_COLS))"
  define row2 where
    "row2 = fold (\<lambda>c a. if ?top c \<noteq> None then a(c := ?top c) else a) keep_cols (?avg(MOF \<mapsto> mof_name))"
  have out: "out = reindex row2 OUTPUT_COLS"
    using assms gu im kc by (simp add: aggregate_group_def Let_def len_grp cols_grp row2_def)
  from idxmax_spec [OF im] obtain x where
    i: "i < length (rows g)" and ix: "to_numeric1 L ((rows g ! i) GAS_UPTAKE) = Num x"
    and mx: "\<forall>j<length (rows g). \<forall>y. to_numeric1 L ((rows g ! j) GAS_UPTAKE) = Num y \<longrightarrow> y \<le> x"
    and fs: "\<forall>j<i. to_numeric1 L ((rows g ! j) GAS_UPTAKE) \<noteq> Num x"
    by (auto simp: col_gu)
  have top: "?top c = Some ((rows ?grp ! i) c)" if "c \<in> set keep_cols" for c
    using that by (simp add: loc_def)
  have kept: "out c = Some ((rows ?grp ! i) c)" if "c \<in> set keep_cols" for c
  proof -
    from that keep_cols_output have "c \<in> set OUTPUT_COLS" by blast
    moreover have "row2 c = ?top c"
      unfolding row2_def using that top [OF that] by (intro fold_keep_in) simp_all
    ultimately show ?thesis
      by (simp add: out reindex_def top [OF that])
  qed
  have 1: "out GAS_UPTAKE = Some (Num x)"
    using kept [OF GAS_UPTAKE_kept] i ix by (simp add: rows_grp)
  have 2: "\<forall>c\<in>set keep_cols. c \<noteq> GAS_UPTAKE \<longrightarrow> out c = Some ((rows g ! i) c)"
    using kept i by (simp add: rows_grp)
  have "row2 MOF = (?avg(MOF \<mapsto> mof_name)) MOF"
    unfolding row2_def by (rule fold_keep_other) (rule MOF_not_kept)
  then have 3: "out MOF = Some mof_name"
    using MOF_output by (simp add: out reindex_def)
  have 4: "out c = Some (if c \<in> set (columns g) \<and> dtypes g c = DNum
                          then mean_cells (getitem g c) else NaN)"
    if c: "c \<in> set OUTPUT_COLS" "c \<notin> set keep_cols" "c \<noteq> MOF" for c
  proof -
    from c(2) GAS_UPTAKE_kept have ne: "c \<noteq> GAS_UPTAKE" by auto
    have "row2 c = (?avg(MOF \<mapsto> mof_name)) c"
      unfolding row2_def by (rule fold_keep_other) (rule c(2))
    then have r: "row2 c = ?avg c"
      using c(3) by simp
    have d: "dtypes ?grp c = dtypes g c"
      using ne by (simp add: setitem_def)
    have v: "getitem ?grp c = getitem g c"
      unfolding getitem_def [of ?grp] rows_grp using ne by (simp add: getitem_def comp_def)
    show ?thesis
      using c by (simp add: out reindex_def r mean_numeric_only_def d v)
  qed
  from i ix mx fs 1 2 3 4 show ?thesis by blast
qed

text \<open>
  C5, as the specification states it: in a group of several records every output column
  outside the operating conditions and the entity name is the mean of the numeric,
  present values of the group. In the example the two matching records of the entity A
  hold the void fractions 10 and 20 in a column of dtype object (the record of B holds
  a text there), and the output row holds NaN, not 15.
\<close>

theorem group_mean_counterexample:
  "getitem (matching_subset lib example_df [(MOF, CStr ''A'')]) ''Void Fraction''
     = [Num 10, Num 20]
   \<and> result_column (fst (find_matching_mofs lib (example_store example_df) 0
                           [(MOF, RStr ''A'')])) ''Void Fraction'' = Some [NaN]"
proof -
  have "getitem (matching_subset lib example_df [(MOF, CStr ''A'')]) ''Void Fraction''
     = [Num 10, Num 20]"
    by (simp add: matching_subset_def getitem_def examples names lower_def strip_def is_space_def)
  moreover have "result_column (fst (find_matching_mofs lib (example_store example_df) 0
                           [(MOF, RStr ''A'')])) ''Void Fraction'' = Some [NaN]"
    by (simp add: matcher pandas_ops examples names)
  ultimately show ?thesis by simp
qed

text \<open>
  C5, amended: in a group of several records for which a row is produced, the
  representative is the record with the largest coerced operating uptake, the first such
  record in the order of the group; the operating-condition columns of the row are
  those of the representative (the uptake as coerced); the entity name of the row is the
  key of the group; and every other output column is the mean of the numbers of the
  column (NaN when it has none) when the group has the column with a numeric dtype, and
  NaN otherwise, also when a column of dtype object holds numbers
  (\<^verbatim>\<open>mean(numeric_only=True)\<close>).
\<close>

theorem multi_record_group_row:
  assumes "aggregate_group L mof_name g = Inr out" and "length (rows g) > 1"
  shows "\<exists>i x. i < length (rows g)
      \<and> to_numeric1 L ((rows g ! i) GAS_UPTAKE) = Num x
      \<and> (\<forall>j<length (rows g). \<forall>y. to_numeric1 L ((rows g ! j) GAS_UPTAKE) = Num y \<longrightarrow> y \<le> x)
      \<and> (\<forall>j<i. to_numeric1 L ((rows g ! j) GAS_UPTAKE) \<noteq> Num x)
      \<and> out GAS_UPTAKE = Some (Num x)
      \<and> (\<forall>c\<in>set keep_cols. c \<noteq> GAS_UPTAKE \<longrightarrow> out c = Some ((rows g ! i) c))
      \<and> out MOF = Some mof_name
      \<and> (\<forall>c\<in>set OUTPUT_COLS. c \<notin> set keep_cols \<longrightarrow> c \<noteq> MOF \<longrightarrow>
            out c = Some (if c \<in> set (columns g) \<and> dtypes g c = DNum
                          then mean_cells (getitem g c) else NaN))"
  using assms by (rule aggregate_group_multi)

theorem multi_record_group_row_witness:
  "\<not> isl (aggregate_group lib (Str ''zif-8'') example_df2)
   \<and> 1 < length (rows example_df2)
   \<and> projr (aggregate_group lib (Str ''zif-8'') example_df2) GAS_UPTAKE = Some (Num 5)
   \<and> projr (aggregate_group lib (Str ''zif-8'') example_df2) GAS_PRESSURE = Some (Num 5)
   \<and> projr (aggregate_group lib (Str ''zif-8'') example_df2) MOF = Some (Str ''zif-8'')
   \<and> projr (aggregate_group lib (Str ''zif-8'') example_df2) ''Void Fraction'' = Some (Num 15)
   \<and> projr (aggregate_group lib (Str ''zif-8'') example_df2) ''KH (mmol/bar.g)'' = Some NaN"
proof -
  let ?r = "aggregate_group lib (Str ''zif-8'') example_df2"
  have n: "\<not> isl ?r"
    by (simp add: matcher pandas_ops examples names)
  then have a: "?r = Inr (projr ?r)" by (rule sum_collapse)
  have l: "1 < length (rows example_df2)"
    by (simp add: examples)
  have len: "length (rows example_df2) = 2"
    by (simp add: examples)
  have u0: "to_numeric1 lib ((rows example_df2 ! 0) GAS_UPTAKE) = Num 2"
    and u1: "to_numeric1 lib ((rows example_df2 ! Suc 0) GAS_UPTAKE) = Num 5"
    and p1: "(rows example_df2 ! Suc 0) GAS_PRESSURE = Num 5"
    by (simp_all add: examples names)
  have k: "GAS_PRESSURE \<in> set keep_cols" "GAS_PRESSURE \<noteq> GAS_UPTAKE"
    "''Void Fraction'' \<in> set OUTPUT_COLS" "''Void Fraction'' \<notin> set keep_cols" "''Void Fraction'' \<noteq> MOF"
    "''KH (mmol/bar.g)'' \<in> set OUTPUT_COLS" "''KH (mmol/bar.g)'' \<notin> set keep_cols" "''KH (mmol/bar.g)'' \<noteq> MOF"
    by (simp_all add: names)
  have v: "''Void Fraction'' \<in> set (columns example_df2)" "dtypes example_df2 ''Void Fraction'' = DNum"
    "mean_cells (getitem example_df2 ''Void Fraction'') = Num 15"
    "''KH (mmol/bar.g)'' \<notin> set (columns example_df2)"
    by (simp_all add: examples names mean_cells_def getitem_def)
  from multi_record_group_row [OF a l] obtain i x where
    i: "i < length (rows example_df2)"
    and ix: "to_numeric1 lib ((rows example_df2 ! i) GAS_UPTAKE) = Num x"
    and mx: "\<forall>j<length (rows example_df2). \<forall>y.
               to_numeric1 lib ((rows example_df2 ! j) GAS_UPTAKE) = Num y \<longrightarrow> y \<le> x"
    and gu: "projr ?r GAS_UPTAKE = Some (Num x)"
    and kp: "\<forall>c\<in>set keep_cols. c \<noteq> GAS_UPTAKE \<longrightarrow> projr ?r c = Some ((rows example_df2 ! i) c)"
    and mo: "projr ?r MOF = Some (Str ''zif-8'')"
    and av: "\<forall>c\<in>set OUTPUT_COLS. c \<notin> set keep_cols \<longrightarrow> c \<noteq> MOF \<longrightarrow>
            projr ?r c = Some (if c \<in> set (columns example_df2) \<and> dtypes example_df2 c = DNum
                          then mean_cells (getitem example_df2 c) else NaN)"
    by blast
  have "Suc 0 < length (rows example_df2)" using len by simp
  with mx u1 have "5 \<le> x" by blast
  moreover from i len have "i = 0 \<or> i = Suc 0" by arith
  ultimately have i1: "i = Suc 0" and x5: "x = 5"
    using ix u0 u1 by auto
  from kp k(1,2) i1 p1 have 2: "projr ?r GAS_PRESSURE = Some (Num 5)" by simp
  from av k(3,4,5) v(1,2,3) have 3: "projr ?r ''Void Fraction'' = Some (Num 15)" by simp
  from av k(6,7,8) v(4) have 4: "projr ?r ''KH (mmol/bar.g)'' = Some NaN" by simp
  from n l gu x5 2 mo 3 4 show ?thesis by simp
qed

section \<open>One row per entity\<close>

lemma MOF_not_GAS_UPTAKE: "MOF \<noteq> GAS_UPTAKE"
  by (simp add: names)

lemma aggregate_group_key:
  assumes "aggregate_group L k g = Inr out" and "MOF \<in> set (columns g)"
    and "rows g \<noteq> []" and "\<forall>r\<in>set (rows g). r MOF = k"
  shows "out MOF = Some k"
proof (cases "length (rows g) > 1")
  case True
  from aggregate_group_multi [OF assms(1) True] show ?thesis by blast
next
  case False
  with assms(3) obtain r where r: "rows g = [r]"
    by (cases "rows g") auto
  with assms(4) have k: "r MOF = k" by simp
  show ?thesis
    using assms(1,2) r k MOF_output MOF_not_GAS_UPTAKE
    by (auto simp: aggregate_group_def Let_def setitem_def to_numeric_def getitem_def
        split: if_splits)
qed

lemma group_loop_keys:
  assumes "group_loop L gs acc = Inr rs"
    and "\<forall>(k, g)\<in>set gs. MOF \<in> set (columns g) \<and> rows g \<noteq> [] \<and> (\<forall>r\<in>set (rows g). r MOF = k)"
  shows "map (\<lambda>sr. sr MOF) rs = map (\<lambda>sr. sr MOF) acc @ map (\<lambda>(k, g). Some k) gs"
  using assms
proof (induction gs arbitrary: acc)
  case Nil
  then show ?case by simp
next
  case (Cons p gs)
  obtain k g where p: "p = (k, g)" by (cases p)
  from Cons.prems(1) p obtain out where out: "aggregate_group L k g = Inr out"
    and run: "group_loop L gs (acc @ [out]) = Inr rs"
    by (auto split: sum.splits)
  from Cons.prems(2) p have "MOF \<in> set (columns g)" "rows g \<noteq> []" "\<forall>r\<in>set (rows g). r MOF = k"
    by auto
  from aggregate_group_key [OF out this] have "out MOF = Some k" .
  moreover from Cons.prems(2) have
    "\<forall>(k, g)\<in>set gs. MOF \<in> set (columns g) \<and> rows g \<noteq> [] \<and> (\<forall>r\<in>set (rows g). r MOF = k)"
    by simp
  from Cons.IH [OF run this]
  have "map (\<lambda>sr. sr MOF) rs = map (\<lambda>sr. sr MOF) (acc @ [out]) @ map (\<lambda>(k, g). Some k) gs" .
  ultimately show ?case by (simp add: p)
qed

lemma set_group_keys: "set (group_keys df col) = {k \<in> set (getitem df col). notna k}"
  by (auto simp: group_keys_def)

lemma distinct_group_keys: "distinct (group_keys df col)"
  by (simp add: group_keys_def)

lemma key_of_inj: "notna a \<Longrightarrow> notna b \<Longrightarrow> key_of a = key_of b \<Longrightarrow> a = b"
  by (cases a; cases b) auto

lemma sorted_group_keys: "sorted_wrt (\<lambda>a b. key_of a < key_of b) (group_keys df col)"
proof -
  have "inj_on key_of (set (group_keys df col))"
    by (auto simp: inj_on_def set_group_keys intro: key_of_inj)
  then have "distinct (map key_of (group_keys df col))"
    by (simp add: distinct_map distinct_group_keys)
  moreover have "sorted (map key_of (group_keys df col))"
    by (simp add: group_keys_def)
  ultimately have "sorted_wrt (<) (map key_of (group_keys df col))"
    by (simp add: strict_sorted_iff)
  then show ?thesis by (simp add: sorted_wrt_map)
qed

lemma groupby_groups:
  "\<forall>(k, g)\<in>set (groupby df col).
      columns g = columns df \<and> rows g \<noteq> [] \<and> (\<forall>r\<in>set (rows g). r col = k)"
  by (auto simp: groupby_def set_group_keys getitem_def filter_empty_conv)

lemma aggregate_keys:
  assumes "aggregate L matched = Inr t"
  shows "getitem t MOF = group_keys matched MOF"
proof -
  from assms have m: "MOF \<in> set (columns matched)"
    by (auto simp: aggregate_def split: if_splits)
  with assms obtain rs where rs: "group_loop L (groupby matched MOF) [] = Inr rs"
    and t: "t = DataFrame rs OUTPUT_COLS"
    by (auto simp: aggregate_def split: sum.splits)
  have "\<forall>(k, g)\<in>set (groupby matched MOF).
      MOF \<in> set (columns g) \<and> rows g \<noteq> [] \<and> (\<forall>r\<in>set (rows g). r MOF = k)"
    using groupby_groups [of matched MOF] m by auto
  from group_loop_keys [OF rs this]
  have k: "map (\<lambda>sr. sr MOF) rs = map Some (group_keys matched MOF)"
    by (simp add: groupby_def comp_def)
  have "getitem t MOF = map (\<lambda>sr. case sr MOF of Some v \<Rightarrow> v | None \<Rightarrow> NaN) rs"
    by (simp add: t DataFrame_def getitem_def)
  also have "\<dots> = map (\<lambda>q. case q of Some v \<Rightarrow> v | None \<Rightarrow> NaN) (map (\<lambda>sr. sr MOF) rs)"
    by (simp add: comp_def)
  also have "\<dots> = group_keys matched MOF"
    unfolding k by (simp add: comp_def)
  finally show ?thesis .
qed

text \<open>
  C7, as the specification states it: the number of output rows is the number of
  distinct entity names among the matching records. In the example both records of the
  dataset match the criterion \<^verbatim>\<open>{"MOF": "zif-8"}\<close>; their names are the two distinct
  texts \<^verbatim>\<open>"ZIF-8"\<close> and \<^verbatim>\<open>"zif-8 "\<close>, and the output has one row, named \<^verbatim>\<open>"zif-8"\<close>.
\<close>

theorem identity_count_counterexample:
  "getitem (matching_subset lib example_df2 [(MOF, CStr ''zif-8'')]) MOF
     = [Str ''ZIF-8'', Str ''zif-8 '']
   \<and> result_column (fst (find_matching_mofs lib (example_store example_df2) 0
                           [(MOF, RStr ''zif-8'')])) MOF = Some [Str ''zif-8'']"
proof -
  have "getitem (matching_subset lib example_df2 [(MOF, CStr ''zif-8'')]) MOF
     = [Str ''ZIF-8'', Str ''zif-8 '']"
    by (simp add: matching_subset_def getitem_def examples names lower_def strip_def is_space_def)
  moreover have "result_column (fst (find_matching_mofs lib (example_store example_df2) 0
                           [(MOF, RStr ''zif-8'')])) MOF = Some [Str ''zif-8'']"
    by (simp add: matcher pandas_ops examples names)
  ultimately show ?thesis by simp
qed

text \<open>
  C7, amended: when the matching subset is not empty and a table is returned, the
  number of its rows is the number of distinct entity names that are not missing among
  the matching records as they stand in the working copy (line 91 groups the converted
  copy: a criterion on the entity column has trimmed and case-folded, or coerced, the
  names), each such name is the name of one row, and the rows are in ascending order of
  the name, numbers before texts.
\<close>

theorem output_rows_per_identity:
  assumes "find_matching_mofs L s df inputs = (Inr t, s')"
    and "\<not> df_empty (objs s df)"
    and "normalise inputs [] \<noteq> []"
    and "matched = fst (filter_records L s df (normalise inputs []))"
    and "\<not> df_empty matched"
  shows "length (rows t) = card {k \<in> set (getitem matched MOF). notna k}
         \<and> set (getitem t MOF) = {k \<in> set (getitem matched MOF). notna k}
         \<and> sorted_wrt (\<lambda>a b. key_of a < key_of b) (getitem t MOF)"
proof -
  from assms have "aggregate L matched = Inr t"
    by (auto simp: find_matching_mofs_def Let_def split: if_splits prod.splits)
  from aggregate_keys [OF this] have k: "getitem t MOF = group_keys matched MOF" .
  have "length (rows t) = length (getitem t MOF)"
    by (simp add: getitem_def)
  also have "\<dots> = card (set (group_keys matched MOF))"
    unfolding k by (simp add: distinct_card distinct_group_keys)
  finally have "length (rows t) = card {k \<in> set (getitem matched MOF). notna k}"
    by (simp add: set_group_keys)
  then show ?thesis
    by (simp add: k set_group_keys sorted_group_keys)
qed

theorem output_rows_per_identity_witness:
  "\<not> df_empty (objs (example_store example_df2) 0)
   \<and> normalise [(''N2'', RNum 1)] [] \<noteq> []
   \<and> \<not> df_empty (fst (filter_records lib (example_store example_df2) 0
                        (normalise [(''N2'', RNum 1)] [])))
   \<and> getitem (fst (filter_records lib (example_store example_df2) 0
                     (normalise [(''N2'', RNum 1)] []))) MOF = [Str ''ZIF-8'', Str ''zif-8 '']
   \<and> \<not> isl (fst (find_matching_mofs lib (example_store example_df2) 0 [(''N2'', RNum 1)]))
   \<and> length (rows (projr (fst (find_matching_mofs lib (example_store example_df2) 0
                                [(''N2'', RNum 1)])))) = 2"
proof -
  let ?s = "example_store example_df2"
  let ?x = "find_matching_mofs lib ?s 0 [(''N2'', RNum 1)]"
  let ?m = "fst (filter_records lib ?s 0 (normalise [(''N2'', RNum 1)] []))"
  have e: "\<not> df_empty (objs ?s 0)"
    by (simp add: df_empty_def examples names)
  have n: "normalise [(''N2'', RNum 1)] [] = [(''N2'', CNum 1)]"
    by (simp add: strip_def is_space_def)
  have ne: "normalise [(''N2'', RNum 1)] [] \<noteq> []"
    by (simp add: n)
  have g: "getitem ?m MOF = [Str ''ZIF-8'', Str ''zif-8 '']"
    unfolding n by (simp add: filter_records_def Let_def pandas_ops examples names)
  have me: "\<not> df_empty ?m"
    unfolding n by (simp add: filter_records_def Let_def pandas_ops examples names)
  have ni: "\<not> isl (fst ?x)"
    by (simp add: matcher pandas_ops examples names)
  then have x: "?x = (Inr (projr (fst ?x)), snd ?x)"
    by (cases ?x) (auto simp: sum_collapse)
  have c: "{k \<in> set [Str ''ZIF-8'', Str ''zif-8 '']. notna k} = {Str ''ZIF-8'', Str ''zif-8 ''}"
    by auto
  from output_rows_per_identity [OF x e ne refl me]
  have "length (rows (projr (fst ?x))) = card {k \<in> set (getitem ?m MOF). notna k}"
    by blast
  then have "length (rows (projr (fst ?x))) = 2"
    unfolding g c by simp
  with e ne me g ni show ?thesis by blast
qed

section \<open>The schema of the result\<close>

lemma aggregate_columns: "aggregate L matched = Inr t \<Longrightarrow> columns t = OUTPUT_COLS"
  by (auto simp: aggregate_def DataFrame_def split: if_splits sum.splits)

text \<open>
  C8: every table that the function returns, the empty one included, has exactly the
  fixed output columns in their fixed order.
\<close>

theorem output_schema_fixed:
  "find_matching_mofs L s df inputs = (Inr t, s') \<Longrightarrow> columns t = OUTPUT_COLS"
  by (auto simp: find_matching_mofs_def Let_def empty_frame_def split: prod.splits if_splits
      dest: aggregate_columns)

theorem output_schema_fixed_witness:
  "\<not> isl (fst (find_matching_mofs lib (example_store example_df) 0 [(MOF, RStr ''A'')]))
   \<and> columns (projr (fst (find_matching_mofs lib (example_store example_df) 0 [(MOF, RStr ''A'')])))
       = OUTPUT_COLS"
proof -
  let ?x = "find_matching_mofs lib (example_store example_df) 0 [(MOF, RStr ''A'')]"
  have n: "\<not> isl (fst ?x)"
    by (simp add: matcher pandas_ops examples names)
  then have "?x = (Inr (projr (fst ?x)), snd ?x)"
    by (cases ?x) (auto simp: sum_collapse)
  from n output_schema_fixed [OF this] show ?thesis by simp
qed

section \<open>The caller's dataset\<close>

text \<open>
  C9: the caller's dataset is the same after the call as before: the conversions of the
  criteria columns are written to the working copy, a new object, and every object that
  existed before the call keeps its content.
\<close>

theorem input_dataset_unchanged:
  "df < next_ref s \<Longrightarrow> objs (snd (find_matching_mofs L s df inputs)) df = objs s df"
  by (auto simp: find_matching_mofs_def Let_def split: prod.splits dest: filter_records_frame)

theorem input_dataset_unchanged_witness:
  "(0::nat) < next_ref (example_store example_df)
   \<and> objs (snd (find_matching_mofs lib (example_store example_df) 0
                  [(MOF, RStr '' a ''), (GAS_UPTAKE, RNum 5)])) 0
      = objs (example_store example_df) 0"
proof -
  have h: "(0::nat) < next_ref (example_store example_df)"
    by (simp add: example_store_def)
  from h input_dataset_unchanged [OF h] show ?thesis by simp
qed

section \<open>An empty dataset\<close>

text \<open>
  C10: when the dataset has no rows the function returns the empty table with the fixed
  output columns at once (line 53), whatever the criteria are: neither the criteria nor
  the columns are looked at, so no error is raised even for criteria on columns that the
  dataset does not have.
\<close>

theorem empty_dataset_returns_empty_table:
  "rows (objs s df) = [] \<Longrightarrow>
     find_matching_mofs L s df inputs = (Inr (empty_frame OUTPUT_COLS), s)"
  by (simp add: find_matching_mofs_def df_empty_def)

theorem empty_dataset_returns_empty_table_witness:
  "rows (objs (example_store (empty_frame example_cols)) 0) = []
   \<and> find_matching_mofs lib (example_store (empty_frame example_cols)) 0
        [(''Unknown'', RStr ''x''), (MOF, RNone)]
      = (Inr (empty_frame OUTPUT_COLS), example_store (empty_frame example_cols))"
proof -
  have h: "rows (objs (example_store (empty_frame example_cols)) 0) = []"
    by (simp add: example_store_def empty_frame_def)
  from h empty_dataset_returns_empty_table [OF h] show ?thesis by simp
qed

end
